theory Spec2Isabelle
  imports Complex_Main
begin

section \<open>Data model\<close>

text \<open>
  A pandas cell of a numeric column is a float. Floats are modelled as exact reals plus
  the missing value \<open>NaN\<close>; rounding is not modelled.
\<close>

datatype cell = NaN | Val real

fun cell_add :: "cell \<Rightarrow> cell \<Rightarrow> cell" where
  "cell_add (Val x) (Val y) = Val (x + y)"
| "cell_add _ _ = NaN"

fun cell_sub :: "cell \<Rightarrow> cell \<Rightarrow> cell" where
  "cell_sub (Val x) (Val y) = Val (x - y)"
| "cell_sub _ _ = NaN"

fun is_nan :: "cell \<Rightarrow> bool" where
  "is_nan NaN = True"
| "is_nan (Val _) = False"

text \<open>The value a cell contributes to a sum that skips \<open>NaN\<close>.\<close>

fun cell_value :: "cell \<Rightarrow> real" where
  "cell_value (Val x) = x"
| "cell_value NaN = 0"

text \<open>
  Row labels of a data frame: the positions of a default \<open>RangeIndex\<close>, or the
  timestamps of the \<open>DateTime\<close> column (in seconds) once it has become the index.
\<close>

datatype label = RangeIndex nat | Timestamp int

text \<open>
  A data frame is its column labels and its rows, each row a key and one cell per
  column. The input tables of the program are \<open>int frame\<close>: the key of a row is the value
  of its \<open>DateTime\<close> column, and \<open>columns\<close> are the labels of the other columns.
\<close>

record 'i frame =
  columns :: "string list"
  rows :: "('i \<times> cell list) list"

text \<open>
  Exceptions. \<open>InsufficientDataError\<close> is the \<open>ValueError("Not enough ... data ...")\<close> that
  the repository raises itself; \<open>KeyError\<close>, \<open>IndexError\<close> and \<open>ShapeError\<close> (a
  \<open>ValueError\<close> about mismatched shapes) are raised by pandas on the program's own
  indexing and frame construction; \<open>Library\<close> wraps what the fitting and forecasting
  routines of statsmodels and prophet raise.
\<close>

datatype lib_error = LinAlgError | OtherLibraryError string

datatype error = InsufficientDataError | KeyError | IndexError | ShapeError
  | Library lib_error

section \<open>Strings\<close>

text \<open>Python's \<open>str.lower\<close>, \<open>in\<close> and \<open>str.replace\<close> on ASCII labels.\<close>

definition lower_char :: "char \<Rightarrow> char" where
  "lower_char c =
     (let n = (of_char c :: nat) in if 65 \<le> n \<and> n \<le> 90 then char_of (n + 32) else c)"

definition lower :: "string \<Rightarrow> string" where
  "lower s = map lower_char s"

fun startswith :: "string \<Rightarrow> string \<Rightarrow> bool" where
  "startswith s [] = True"
| "startswith [] (p # ps) = False"
| "startswith (c # cs) (p # ps) = (c = p \<and> startswith cs ps)"

fun contains :: "string \<Rightarrow> string \<Rightarrow> bool" where
  "contains sub [] = (sub = [])"
| "contains sub (c # cs) = (startswith (c # cs) sub \<or> contains sub cs)"

text \<open>
  \<open>replace_from old new k s\<close>: replace the non-overlapping occurrences of the non-empty
  \<open>old\<close> in \<open>s\<close> from left to right, the first \<open>k\<close> characters of \<open>s\<close> being the rest of
  an occurrence already replaced.
\<close>

fun replace_from :: "string \<Rightarrow> string \<Rightarrow> nat \<Rightarrow> string \<Rightarrow> string" where
  "replace_from old new k [] = []"
| "replace_from old new (Suc k) (c # cs) = replace_from old new k cs"
| "replace_from old new 0 (c # cs) =
     (if startswith (c # cs) old then new @ replace_from old new (length old - 1) cs
      else c # replace_from old new 0 cs)"

definition replace :: "string \<Rightarrow> string \<Rightarrow> string \<Rightarrow> string" where
  "replace s old new = replace_from old new 0 s"

section \<open>Variable preparation: \<open>convert_temperature_to_fahrenheit\<close>\<close>

fun to_fahrenheit :: "cell \<Rightarrow> cell" where
  "to_fahrenheit (Val c) = Val (c * 1.8 + 32)"
| "to_fahrenheit NaN = NaN"

definition is_celsius_temp :: "string \<Rightarrow> bool" where
  "is_celsius_temp col = (contains ''temp'' (lower col) \<and> contains ''degc'' (lower col))"

definition new_col_name :: "string \<Rightarrow> string" where
  "new_col_name col = replace (replace col ''degC'' ''degF'') ''DEGC'' ''degF''"

text \<open>
  \<open>upd_cells p f names row\<close> applies \<open>f\<close> to the cells of \<open>row\<close> under the labels that
  satisfy \<open>p\<close>.
\<close>

fun upd_cells :: "(string \<Rightarrow> bool) \<Rightarrow> (cell \<Rightarrow> cell) \<Rightarrow> string list \<Rightarrow> cell list \<Rightarrow> cell list" where
  "upd_cells p f (n # ns) (c # cs) = (if p n then f c else c) # upd_cells p f ns cs"
| "upd_cells p f _ cs = cs"

text \<open>\<open>data[col] = data[col] * 1.8 + 32\<close>, on every column now labelled \<open>col\<close>.\<close>

definition convert_col :: "string \<Rightarrow> 'i frame \<Rightarrow> 'i frame" where
  "convert_col col data =
     data\<lparr>rows := map (\<lambda>(k, cs). (k, upd_cells (\<lambda>n. n = col) to_fahrenheit (columns data) cs))
                       (rows data)\<rparr>"

text \<open>\<open>data.rename(columns={col: new_col}, inplace=True)\<close>.\<close>

definition rename_col :: "string \<Rightarrow> string \<Rightarrow> 'i frame \<Rightarrow> 'i frame" where
  "rename_col col new_col data =
     data\<lparr>columns := map (\<lambda>n. if n = col then new_col else n) (columns data)\<rparr>"

text \<open>
  The loop runs over the labels the frame had on entry; reading \<open>data[col]\<close> raises
  \<open>KeyError\<close> when an earlier renaming has removed the label \<open>col\<close>.
\<close>

fun convert_loop :: "string list \<Rightarrow> 'i frame \<Rightarrow> error + 'i frame" where
  "convert_loop [] data = Inr data"
| "convert_loop (col # cols) data =
     (if is_celsius_temp col then
        (if col \<in> set (columns data)
         then convert_loop cols (rename_col col (new_col_name col) (convert_col col data))
         else Inl KeyError)
      else convert_loop cols data)"

definition convert_temperature_to_fahrenheit :: "'i frame \<Rightarrow> error + 'i frame" where
  "convert_temperature_to_fahrenheit data = convert_loop (columns data) data"

section \<open>Frame operations used by the fitter and the simulator\<close>

text \<open>\<open>data.set_index("DateTime")\<close>: the timestamps become the row labels.\<close>

definition set_index_DateTime :: "int frame \<Rightarrow> label frame" where
  "set_index_DateTime data = \<lparr>columns = columns data, rows = map (\<lambda>(t, cs). (Timestamp t, cs)) (rows data)\<rparr>"

text \<open>
  \<open>DataFrame.diff()\<close>: every row minus its predecessor, the first row all \<open>NaN\<close>;
  \<open>dropna()\<close> then drops the rows that hold a \<open>NaN\<close>.
\<close>

fun diff_rows :: "cell list \<Rightarrow> ('i \<times> cell list) list \<Rightarrow> ('i \<times> cell list) list" where
  "diff_rows prev [] = []"
| "diff_rows prev ((k, cs) # rs) = (k, map2 cell_sub cs prev) # diff_rows cs rs"

definition diff :: "'i frame \<Rightarrow> 'i frame" where
  "diff fr =
     (case rows fr of
        [] \<Rightarrow> fr
      | (k, cs) # rs \<Rightarrow> fr\<lparr>rows := (k, map (\<lambda>_. NaN) cs) # diff_rows cs rs\<rparr>)"

definition dropna :: "'i frame \<Rightarrow> 'i frame" where
  "dropna fr = fr\<lparr>rows := filter (\<lambda>r. \<not> list_ex is_nan (snd r)) (rows fr)\<rparr>"

text \<open>\<open>xs[-k:]\<close>: the last \<open>k\<close> elements, and the whole of \<open>xs\<close> when \<open>k = 0\<close> (\<open>-0 = 0\<close>).\<close>

definition iloc_tail :: "nat \<Rightarrow> 'a list \<Rightarrow> 'a list" where
  "iloc_tail k xs = (if k = 0 then xs else drop (length xs - k) xs)"

text \<open>\<open>xs[-1]\<close>, which raises \<open>IndexError\<close> on an empty sequence.\<close>

definition iloc_last :: "'a list \<Rightarrow> error + 'a" where
  "iloc_last xs = (if xs = [] then Inl IndexError else Inr (last xs))"

text \<open>A labelled row (a pandas \<open>Series\<close>): the labels with their cells.\<close>

type_synonym series = "(string \<times> cell) list"

definition row_series :: "string list \<Rightarrow> cell list \<Rightarrow> series" where
  "row_series cols cs = zip cols cs"

text \<open>A two-dimensional numpy array: its second dimension and its rows.\<close>

record ndarray =
  nd_cols :: nat
  nd_rows :: "cell list list"

definition frame_values :: "'i frame \<Rightarrow> ndarray" where
  "frame_values fr = \<lparr>nd_cols = length (columns fr), nd_rows = map snd (rows fr)\<rparr>"

section \<open>The statsmodels interface\<close>

text \<open>
  The vector autoregression of statsmodels is not part of the repository: its
  operations are parameters of the model. \<open>VAR\<close> is the constructor, \<open>select_order\<close>
  returns the \<open>aic\<close> field of the lag order results (\<open>None\<close> when there is none), \<open>fit\<close>
  fits at a lag order, \<open>k_ar\<close> reads the lag order of a fitted model and \<open>forecast\<close> is
  the forecasting routine. Each may raise.
\<close>

record ('v, 'm) statsmodels =
  VAR :: "label frame \<Rightarrow> lib_error + 'v"
  select_order :: "'v \<Rightarrow> int \<Rightarrow> lib_error + nat option"
  fit :: "'v \<Rightarrow> nat \<Rightarrow> lib_error + 'm"
  k_ar :: "'m \<Rightarrow> nat"
  forecast :: "'m \<Rightarrow> ndarray \<Rightarrow> nat \<Rightarrow> lib_error + ndarray"

section \<open>Multivariate model fitter: \<open>train_var_model\<close>\<close>

text \<open>\<open>if n_obs <= maxlags: maxlags = max(1, n_obs - 1)\<close>.\<close>

definition adjust_maxlags :: "nat \<Rightarrow> int \<Rightarrow> int" where
  "adjust_maxlags n_obs maxlags = (if int n_obs \<le> maxlags then max 1 (int n_obs - 1) else maxlags)"

text \<open>\<open>lag = lag_order_results.aic if lag_order_results.aic is not None else 1\<close>.\<close>

definition choose_lag :: "nat option \<Rightarrow> nat" where
  "choose_lag aic = (case aic of Some a \<Rightarrow> a | None \<Rightarrow> 1)"

text \<open>
  The three library calls that the level fit and the fallback both make:
  \<open>model = VAR(frame); lag_order_results = model.select_order(maxlags); results = model.fit(lag)\<close>.
\<close>

definition select_and_fit :: "('v, 'm) statsmodels \<Rightarrow> label frame \<Rightarrow> int \<Rightarrow> lib_error + 'm" where
  "select_and_fit L fr maxlags =
     (case VAR L fr of
        Inl e \<Rightarrow> Inl e
      | Inr model \<Rightarrow>
          (case select_order L model maxlags of
             Inl e \<Rightarrow> Inl e
           | Inr aic \<Rightarrow> fit L model (choose_lag aic)))"

text \<open>
  The \<open>except\<close> clause catches \<open>LinAlgError\<close> only; what the second fit raises is not caught.
\<close>

definition train_var_model ::
  "('v, 'm) statsmodels \<Rightarrow> int frame \<Rightarrow> int \<Rightarrow> error + ('m \<times> series option)" where
  "train_var_model L data maxlags =
     (case convert_temperature_to_fahrenheit data of
        Inl e \<Rightarrow> Inl e
      | Inr data_converted \<Rightarrow>
          let data_indexed = set_index_DateTime data_converted;
              n_obs = length (rows data_indexed);
              maxlags1 = adjust_maxlags n_obs maxlags
          in (case select_and_fit L data_indexed maxlags1 of
                Inr results \<Rightarrow> Inr (results, None)
              | Inl (OtherLibraryError msg) \<Rightarrow> Inl (Library (OtherLibraryError msg))
              | Inl LinAlgError \<Rightarrow>
                  let data_diff = dropna (diff data_indexed);
                      maxlags2 = adjust_maxlags (length (rows data_diff)) maxlags1
                  in (case select_and_fit L data_diff maxlags2 of
                        Inl e \<Rightarrow> Inl (Library e)
                      | Inr results \<Rightarrow>
                          (case iloc_last (rows data_indexed) of
                             Inl e \<Rightarrow> Inl e
                           | Inr r \<Rightarrow> Inr (results, Some (row_series (columns data_indexed) (snd r)))))))"

section \<open>Scenario simulator: \<open>simulate_scenario\<close>\<close>

type_synonym adjustments = "(string \<times> real) list"

text \<open>
  \<open>obs.iloc[-1, obs.columns.get_loc(var)] += change\<close>: the cells of the last row under
  the label \<open>var\<close>; \<open>IndexError\<close> when there is no row.
\<close>

definition add_to_last_row ::
  "string list \<Rightarrow> string \<Rightarrow> real \<Rightarrow> ('i \<times> cell list) list \<Rightarrow> error + ('i \<times> cell list) list" where
  "add_to_last_row cols var change obs =
     (if obs = [] then Inl IndexError
      else Inr (butlast obs @
                [(fst (last obs),
                  upd_cells (\<lambda>n. n = var) (\<lambda>c. cell_add c (Val change)) cols (snd (last obs)))]))"

text \<open>
  The loop of the level branch over \<open>adjustments.items()\<close>; a key that is no column is
  skipped.
\<close>

fun adjust_last_obs ::
  "adjustments \<Rightarrow> string list \<Rightarrow> ('i \<times> cell list) list \<Rightarrow> error + ('i \<times> cell list) list" where
  "adjust_last_obs [] cols obs = Inr obs"
| "adjust_last_obs ((var, change) # adj) cols obs =
     (if var \<in> set cols then
        (case add_to_last_row cols var change obs of
           Inl e \<Rightarrow> Inl e
         | Inr obs' \<Rightarrow> adjust_last_obs adj cols obs')
      else adjust_last_obs adj cols obs)"

text \<open>
  The loop of the differenced branch: \<open>new_last[var] += change\<close> for the keys that are
  labels of the snapshot.
\<close>

fun adjust_new_last :: "adjustments \<Rightarrow> series \<Rightarrow> series" where
  "adjust_new_last [] new_last = new_last"
| "adjust_new_last ((var, change) # adj) new_last =
     (if var \<in> set (map fst new_last) then
        adjust_new_last adj
          (map (\<lambda>(l, c). if l = var then (l, cell_add c (Val change)) else (l, c)) new_last)
      else adjust_new_last adj new_last)"

text \<open>
  Arithmetic of two labelled rows: position by position when the labels agree, and
  otherwise by label over the labels of both, a label that one side lacks giving \<open>NaN\<close>
  (the alignment of pandas on labels without duplicates).
\<close>

definition lookup_cell :: "series \<Rightarrow> string \<Rightarrow> cell" where
  "lookup_cell s l = (case map_of s l of Some c \<Rightarrow> c | None \<Rightarrow> NaN)"

definition series_op :: "(cell \<Rightarrow> cell \<Rightarrow> cell) \<Rightarrow> series \<Rightarrow> series \<Rightarrow> series" where
  "series_op f a b =
     (if map fst a = map fst b then map2 (\<lambda>(l, x) (_, y). (l, f x y)) a b
      else map (\<lambda>l. (l, f (lookup_cell a l) (lookup_cell b l))) (remdups (map fst a @ map fst b)))"

text \<open>Assigning a labelled row to a row of a frame aligns it with the frame's columns.\<close>

definition align_to :: "string list \<Rightarrow> series \<Rightarrow> cell list" where
  "align_to cols s = (if map fst s = cols then map snd s else map (lookup_cell s) cols)"

text \<open>
  \<open>pd.date_range(start=start, periods=steps+1, freq='H')[1:]\<close>, timestamps in seconds.
\<close>

definition forecast_index :: "int \<Rightarrow> nat \<Rightarrow> label list" where
  "forecast_index start steps = map (\<lambda>i. Timestamp (start + 3600 * int i)) [1..<Suc steps]"

text \<open>
  \<open>pd.DataFrame(array, index=index, columns=columns)\<close> of a numpy array: the shapes
  must agree.
\<close>

definition DataFrame :: "ndarray \<Rightarrow> 'i list \<Rightarrow> string list \<Rightarrow> error + 'i frame" where
  "DataFrame a idx cols =
     (if length (nd_rows a) = length idx \<and> nd_cols a = length cols
      then Inr \<lparr>columns = cols, rows = zip idx (nd_rows a)\<rparr>
      else Inl ShapeError)"

text \<open>
  \<open>pd.DataFrame(frame, index=index, columns=columns)\<close> of a frame that already has the
  columns \<open>columns\<close>: the frame is reindexed, a row per label of \<open>index\<close>, taken from the
  frame where the frame has that label and all \<open>NaN\<close> where it has not.
\<close>

definition reindex :: "'i frame \<Rightarrow> 'i list \<Rightarrow> 'i frame" where
  "reindex fr idx =
     fr\<lparr>rows := map (\<lambda>l. (l, case map_of (rows fr) l of
                                 Some r \<Rightarrow> r
                               | None \<Rightarrow> replicate (length (columns fr)) NaN)) idx\<rparr>"

text \<open>
  \<open>DataFrame.cumsum()\<close>, column by column down the rows; a \<open>NaN\<close> stays \<open>NaN\<close> and is
  skipped by the running sum.
\<close>

fun cumsum_rows :: "real list \<Rightarrow> ('i \<times> cell list) list \<Rightarrow> ('i \<times> cell list) list" where
  "cumsum_rows acc [] = []"
| "cumsum_rows acc ((k, cs) # rs) =
     (k, map2 (\<lambda>a c. case c of NaN \<Rightarrow> NaN | Val x \<Rightarrow> Val (a + x)) acc cs)
       # cumsum_rows (map2 (\<lambda>a c. case c of NaN \<Rightarrow> a | Val x \<Rightarrow> a + x) acc cs) rs"

definition cumsum :: "'i frame \<Rightarrow> 'i frame" where
  "cumsum fr = fr\<lparr>rows := cumsum_rows (replicate (length (columns fr)) 0) (rows fr)\<rparr>"

text \<open>\<open>frame + values\<close> with a one-dimensional array, added to every row.\<close>

definition add_values :: "'i frame \<Rightarrow> cell list \<Rightarrow> error + 'i frame" where
  "add_values fr vs =
     (if length vs = length (columns fr)
      then Inr (fr\<lparr>rows := map (\<lambda>(k, cs). (k, map2 cell_add cs vs)) (rows fr)\<rparr>)
      else Inl ShapeError)"

text \<open>The window of the level branch: \<open>modified_obs\<close>.\<close>

definition level_window ::
  "nat \<Rightarrow> label frame \<Rightarrow> adjustments \<Rightarrow> error + label frame" where
  "level_window k data_indexed adjustments =
     (let last_obs = iloc_tail k (rows data_indexed)
      in (case adjust_last_obs adjustments (columns data_indexed) last_obs of
            Inl e \<Rightarrow> Inl e
          | Inr modified_obs \<Rightarrow> Inr (data_indexed\<lparr>rows := modified_obs\<rparr>)))"

text \<open>The one-step difference of the differenced branch: \<open>diff_adjustment\<close>.\<close>

definition diff_adjustment :: "label frame \<Rightarrow> adjustments \<Rightarrow> series \<Rightarrow> error + series" where
  "diff_adjustment data_indexed adjustments last_level =
     (let new_last = adjust_new_last adjustments last_level
      in (case iloc_last (rows data_indexed) of
            Inl e \<Rightarrow> Inl e
          | Inr r \<Rightarrow> Inr (series_op cell_sub new_last (row_series (columns data_indexed) (snd r)))))"

text \<open>The window of the differenced branch: \<open>modified_obs_diff\<close>.\<close>

definition diff_window ::
  "nat \<Rightarrow> label frame \<Rightarrow> adjustments \<Rightarrow> series \<Rightarrow> error + label frame" where
  "diff_window k data_indexed adjustments last_level =
     (let data_diff = dropna (diff data_indexed);
          last_obs_diff = iloc_tail k (rows data_diff)
      in (case diff_adjustment data_indexed adjustments last_level of
            Inl e \<Rightarrow> Inl e
          | Inr adj \<Rightarrow>
              (case iloc_last last_obs_diff of
                 Inl e \<Rightarrow> Inl e
               | Inr r \<Rightarrow>
                   Inr (data_diff\<lparr>rows := butlast last_obs_diff @
                          [(fst r, align_to (columns data_diff)
                                     (series_op cell_add (row_series (columns data_diff) (snd r)) adj))]\<rparr>))))"

text \<open>
  The level reconstruction of the differenced branch before the final frame is built:
  \<open>forecast_level = forecast_diff_df.cumsum() + last_level.values\<close>.
\<close>

definition forecast_level :: "ndarray \<Rightarrow> string list \<Rightarrow> series \<Rightarrow> error + label frame" where
  "forecast_level forecast_diff cols last_level =
     (case DataFrame forecast_diff (map RangeIndex [0..<length (nd_rows forecast_diff)]) cols of
        Inl e \<Rightarrow> Inl e
      | Inr forecast_diff_df \<Rightarrow> add_values (cumsum forecast_diff_df) (map snd last_level))"

definition simulate_scenario ::
  "('v, 'm) statsmodels \<Rightarrow> int frame \<Rightarrow> 'm \<Rightarrow> adjustments \<Rightarrow> nat \<Rightarrow> series option
     \<Rightarrow> error + label frame" where
  "simulate_scenario L data var_results adjustments steps last_level =
     (case convert_temperature_to_fahrenheit data of
        Inl e \<Rightarrow> Inl e
      | Inr data_converted \<Rightarrow>
          let data_indexed = set_index_DateTime data_converted
          in (case last_level of
                None \<Rightarrow>
                  (case level_window (k_ar L var_results) data_indexed adjustments of
                     Inl e \<Rightarrow> Inl e
                   | Inr modified_obs \<Rightarrow>
                       (case forecast L var_results (frame_values modified_obs) steps of
                          Inl e \<Rightarrow> Inl (Library e)
                        | Inr fc \<Rightarrow>
                            (case iloc_last (rows data) of
                               Inl e \<Rightarrow> Inl e
                             | Inr r \<Rightarrow>
                                 DataFrame fc (forecast_index (fst r) steps) (columns data_indexed))))
              | Some snapshot \<Rightarrow>
                  (case diff_window (k_ar L var_results) data_indexed adjustments snapshot of
                     Inl e \<Rightarrow> Inl e
                   | Inr modified_obs_diff \<Rightarrow>
                       (case forecast L var_results (frame_values modified_obs_diff) steps of
                          Inl e \<Rightarrow> Inl (Library e)
                        | Inr forecast_diff \<Rightarrow>
                            (case forecast_level forecast_diff (columns data_indexed) snapshot of
                               Inl e \<Rightarrow> Inl e
                             | Inr fl \<Rightarrow>
                                 (case iloc_last (rows data) of
                                    Inl e \<Rightarrow> Inl e
                                  | Inr r \<Rightarrow> Inr (reindex fl (forecast_index (fst r) steps))))))))"

section \<open>Single-series forecasters: \<open>forecast_arima\<close> and \<open>forecast_prophet\<close>\<close>





section \<open>A relation for the proofs\<close>

text \<open>
  Two labelled rows agree on a set of columns when they have the same labels and the
  same cells under the labels that are among the columns.
\<close>

definition agree_on :: "string list \<Rightarrow> series \<Rightarrow> series \<Rightarrow> bool" where
  "agree_on cols a b = list_all2 (\<lambda>p q. fst p = fst q \<and> (fst p \<in> set cols \<longrightarrow> snd p = snd q)) a b"

section \<open>Example inputs\<close>

text \<open>
  A library instance for the examples: the model object is the frame, a fitted model is
  its lag order, \<open>select_order\<close> answers \<open>aic\<close>, \<open>fit\<close> raises \<open>LinAlgError\<close> on a frame of
  \<open>singular_from\<close> rows or more, and \<open>forecast\<close> repeats the last row of the window.
\<close>

definition example_lib :: "nat option \<Rightarrow> nat \<Rightarrow> (label frame, nat) statsmodels" where
  "example_lib aic singular_from =
     \<lparr>VAR = Inr,
      select_order = (\<lambda>model maxlags. Inr aic),
      fit = (\<lambda>model lag. if singular_from \<le> length (rows model) then Inl LinAlgError else Inr lag),
      k_ar = (\<lambda>results. results),
      forecast = (\<lambda>results y steps.
                    Inr \<lparr>nd_cols = nd_cols y,
                         nd_rows = replicate steps (if nd_rows y = [] then [] else last (nd_rows y))\<rparr>)\<rparr>"

text \<open>
  A second instance, which refuses short inputs as a library may: the lag selection
  raises on a frame of fewer than 2 rows, and the forecast on a window of fewer rows than
  the lag order.
\<close>

definition strict_lib :: "(label frame, nat) statsmodels" where
  "strict_lib =
     (example_lib None 10)
       \<lparr>select_order := (\<lambda>model maxlags.
           if length (rows model) < 2 then Inl (OtherLibraryError ''too few observations'')
           else Inr None),
        forecast := (\<lambda>results y steps.
           if length (nd_rows y) < results then Inl (OtherLibraryError ''too few observations'')
           else forecast (example_lib None 10) results y steps)\<rparr>"

text \<open>Three hourly rows of a Celsius temperature and a wind speed.\<close>

definition example_table :: "int frame" where
  "example_table =
     \<lparr>columns = [''Temp_degC'', ''Wind''],
      rows = [(0, [Val 0, Val 3]), (3600, [Val 10, Val 4]), (7200, [Val 20, Val 6])]\<rparr>"

text \<open>The example table after conversion, and a table of one row.\<close>

definition example_converted :: "int frame" where
  "example_converted =
     \<lparr>columns = [''Temp_degF'', ''Wind''],
      rows = [(0, [Val 32, Val 3]), (3600, [Val 50, Val 4]), (7200, [Val 68, Val 6])]\<rparr>"

definition one_row_table :: "int frame" where
  "one_row_table = \<lparr>columns = [''Temp_degC'', ''Wind''], rows = [(0, [Val 0, Val 3])]\<rparr>"



text \<open>The last-level snapshot that the fitter returns for the example table.\<close>

definition example_snapshot :: series where
  "example_snapshot = [(''Temp_degF'', Val 68), (''Wind'', Val 6)]"

text \<open>A table whose temperature label is written in lower case.\<close>

definition lower_case_table :: "int frame" where
  "lower_case_table = \<lparr>columns = [''temp_degc'', ''Wind''], rows = [(0, [Val 0, Val 3])]\<rparr>"

section \<open>Errors of the helper operations\<close>

lemma convert_loop_error: "convert_loop cols data = Inl e \<Longrightarrow> e = KeyError"
  by (induction cols arbitrary: data) (auto split: if_splits)

lemma convert_error: "convert_temperature_to_fahrenheit data = Inl e \<Longrightarrow> e = KeyError"
  unfolding convert_temperature_to_fahrenheit_def by (rule convert_loop_error)

lemma iloc_last_error: "iloc_last xs = Inl e \<Longrightarrow> e = IndexError"
  by (auto simp: iloc_last_def split: if_splits)

lemma example_conversion:
  "convert_temperature_to_fahrenheit example_table = Inr example_converted"
  by code_simp

section \<open>The fitter\<close>

text \<open>
  Claim C1, as amended. The fitter has no check of the number of observations: whatever
  the table, the maximum lag and the library do, \<open>train_var_model\<close> does not raise
  \<open>InsufficientDataError\<close>; with fewer than two observations the table goes to the
  fitting routines like any other.
\<close>

theorem train_var_model_no_insufficient_data:
  "train_var_model L data maxlags \<noteq> Inl InsufficientDataError"
  by (auto simp: train_var_model_def Let_def split: sum.splits lib_error.splits
           dest: convert_error iloc_last_error)

text \<open>
  Claim C1 as stated fails: on a table of one observation the fit is attempted. With a
  library that fits it the call returns a model, and with a library that refuses it the
  caller gets the library's exception; in neither case \<open>InsufficientDataError\<close>.
\<close>

theorem train_var_model_one_row:
  "length (rows one_row_table) < 2 \<and>
   train_var_model (example_lib None 10) one_row_table 3 = Inr (1, None) \<and>
   train_var_model strict_lib one_row_table 3
     = Inl (Library (OtherLibraryError ''too few observations''))"
  by code_simp

text \<open>
  Claim C4. Let \<open>data_indexed\<close> be the converted table and \<open>data_diff\<close> its differenced
  rows. The fitter returns the snapshot \<open>None\<close> exactly when the fit on \<open>data_indexed\<close>
  succeeded, with that fit's model; it returns a snapshot exactly when that fit raised
  \<open>LinAlgError\<close> and the fit on \<open>data_diff\<close> succeeded, and the snapshot is then the
  last row of \<open>data_indexed\<close>; any other exception of the first fit, and every exception
  of the second, reaches the caller as it is.
\<close>

theorem train_var_model_snapshot:
  assumes conv: "convert_temperature_to_fahrenheit data = Inr data_converted"
    and fr: "data_indexed = set_index_DateTime data_converted"
    and ml: "maxlags1 = adjust_maxlags (length (rows data_indexed)) maxlags"
    and df: "data_diff = dropna (diff data_indexed)"
    and ml2: "maxlags2 = adjust_maxlags (length (rows data_diff)) maxlags1"
  shows "(train_var_model L data maxlags = Inr (results, None)
            \<longleftrightarrow> select_and_fit L data_indexed maxlags1 = Inr results) \<and>
         (train_var_model L data maxlags = Inr (results, Some snapshot)
            \<longleftrightarrow> select_and_fit L data_indexed maxlags1 = Inl LinAlgError \<and>
                select_and_fit L data_diff maxlags2 = Inr results \<and>
                rows data_indexed \<noteq> [] \<and>
                snapshot = row_series (columns data_indexed) (snd (last (rows data_indexed)))) \<and>
         (select_and_fit L data_indexed maxlags1 = Inl (OtherLibraryError msg)
            \<longrightarrow> train_var_model L data maxlags = Inl (Library (OtherLibraryError msg))) \<and>
         (select_and_fit L data_indexed maxlags1 = Inl LinAlgError \<and>
          select_and_fit L data_diff maxlags2 = Inl e
            \<longrightarrow> train_var_model L data maxlags = Inl (Library e))"
  using assms
  by (auto simp: train_var_model_def Let_def iloc_last_def split: sum.splits lib_error.splits)

text \<open>
  Claim C4 on the example table: a level fit, a fallback to differences, and a fallback
  whose own fit raises.
\<close>

theorem train_var_model_snapshot_witness:
  "train_var_model (example_lib (Some 2) 10) example_table 3 = Inr (2, None) \<and>
   train_var_model (example_lib (Some 2) 3) example_table 3
     = Inr (2, Some [(''Temp_degF'', Val 68), (''Wind'', Val 6)]) \<and>
   train_var_model (example_lib (Some 2) 2) example_table 3 = Inl (Library LinAlgError)"
proof -
  let ?fr = "set_index_DateTime example_converted"
  let ?ml = "adjust_maxlags (length (rows ?fr)) 3"
  let ?df = "dropna (diff ?fr)"
  let ?ml2 = "adjust_maxlags (length (rows ?df)) ?ml"
  note T = train_var_model_snapshot [OF example_conversion refl refl refl refl]
  have a: "select_and_fit (example_lib (Some 2) 10) ?fr ?ml = Inr 2"
    by code_simp
  have b: "select_and_fit (example_lib (Some 2) 3) ?fr ?ml = Inl LinAlgError"
    "select_and_fit (example_lib (Some 2) 3) ?df ?ml2 = Inr 2"
    "rows ?fr \<noteq> []"
    "[(''Temp_degF'', Val 68), (''Wind'', Val 6)] = row_series (columns ?fr) (snd (last (rows ?fr)))"
    by code_simp+
  have c: "select_and_fit (example_lib (Some 2) 2) ?fr ?ml = Inl LinAlgError"
    "select_and_fit (example_lib (Some 2) 2) ?df ?ml2 = Inl LinAlgError"
    by code_simp+
  have 1: "train_var_model (example_lib (Some 2) 10) example_table 3 = Inr (2, None)"
    by (rule T [where maxlags = 3, THEN conjunct1, THEN iffD2, OF a])
  have 2: "train_var_model (example_lib (Some 2) 3) example_table 3
     = Inr (2, Some [(''Temp_degF'', Val 68), (''Wind'', Val 6)])"
    by (rule T [where maxlags = 3, THEN conjunct2, THEN conjunct1, THEN iffD2,
          OF conjI [OF b(1) conjI [OF b(2) conjI [OF b(3) b(4)]]]])
  have 3: "train_var_model (example_lib (Some 2) 2) example_table 3 = Inl (Library LinAlgError)"
    by (rule T [where maxlags = 3, THEN conjunct2, THEN conjunct2, THEN conjunct2, THEN mp,
          OF conjI [OF c(1) c(2)]])
  from 1 2 3 show ?thesis by (intro conjI)
qed

text \<open>The fitter's two results in terms of the three library calls.\<close>

lemma select_and_fit_Inr:
  "select_and_fit L fr maxlags = Inr results \<longleftrightarrow>
     (\<exists>model aic. VAR L fr = Inr model \<and> select_order L model maxlags = Inr aic \<and>
        fit L model (case aic of None \<Rightarrow> 1 | Some a \<Rightarrow> a) = Inr results)"
  by (auto simp: select_and_fit_def choose_lag_def split: sum.splits)

lemma train_var_model_level:
  assumes "convert_temperature_to_fahrenheit data = Inr data_converted"
  shows "train_var_model L data maxlags = Inr (results, None) \<longleftrightarrow>
     select_and_fit L (set_index_DateTime data_converted)
       (adjust_maxlags (length (rows (set_index_DateTime data_converted))) maxlags) = Inr results"
  using assms
  by (auto simp: train_var_model_def Let_def iloc_last_def split: sum.splits lib_error.splits)

lemma train_var_model_fallback:
  assumes "convert_temperature_to_fahrenheit data = Inr data_converted"
    and "data_indexed = set_index_DateTime data_converted"
    and "maxlags1 = adjust_maxlags (length (rows data_indexed)) maxlags"
    and "data_diff = dropna (diff data_indexed)"
  shows "train_var_model L data maxlags = Inr (results, Some snapshot) \<longleftrightarrow>
     select_and_fit L data_indexed maxlags1 = Inl LinAlgError \<and>
     select_and_fit L data_diff (adjust_maxlags (length (rows data_diff)) maxlags1) = Inr results \<and>
     rows data_indexed \<noteq> [] \<and>
     snapshot = row_series (columns data_indexed) (snd (last (rows data_indexed)))"
  using assms
  by (auto simp: train_var_model_def Let_def iloc_last_def split: sum.splits lib_error.splits)

text \<open>
  Claim C10. In the level fit and in the differenced fallback alike, the model that
  \<open>train_var_model\<close> returns is the fit at lag order 1 when the lag selection has no AIC
  order (\<open>aic\<close> is \<open>None\<close>), and the fit at exactly the selected order otherwise.
\<close>

theorem train_var_model_lag_order:
  assumes conv: "convert_temperature_to_fahrenheit data = Inr data_converted"
    and fr: "data_indexed = set_index_DateTime data_converted"
    and ml: "maxlags1 = adjust_maxlags (length (rows data_indexed)) maxlags"
    and df: "data_diff = dropna (diff data_indexed)"
    and ml2: "maxlags2 = adjust_maxlags (length (rows data_diff)) maxlags1"
  shows "(train_var_model L data maxlags = Inr (results, None) \<longleftrightarrow>
           (\<exists>model aic. VAR L data_indexed = Inr model \<and>
              select_order L model maxlags1 = Inr aic \<and>
              fit L model (case aic of None \<Rightarrow> 1 | Some a \<Rightarrow> a) = Inr results)) \<and>
         (train_var_model L data maxlags = Inr (results, Some snapshot) \<longleftrightarrow>
           select_and_fit L data_indexed maxlags1 = Inl LinAlgError \<and>
           (\<exists>model aic. VAR L data_diff = Inr model \<and>
              select_order L model maxlags2 = Inr aic \<and>
              fit L model (case aic of None \<Rightarrow> 1 | Some a \<Rightarrow> a) = Inr results) \<and>
           rows data_indexed \<noteq> [] \<and>
           snapshot = row_series (columns data_indexed) (snd (last (rows data_indexed))))"
  unfolding train_var_model_level [OF conv] train_var_model_fallback [OF conv fr ml df]
    select_and_fit_Inr fr ml df ml2
  by (rule conjI; rule refl)

text \<open>
  Claim C10 on the example table: no AIC order gives lag 1, the AIC order 2 gives lag 2,
  and no AIC order in the fallback gives lag 1.
\<close>

theorem train_var_model_lag_order_witness:
  "train_var_model (example_lib None 10) example_table 3 = Inr (1, None) \<and>
   train_var_model (example_lib (Some 2) 10) example_table 3 = Inr (2, None) \<and>
   train_var_model (example_lib None 3) example_table 3
     = Inr (1, Some [(''Temp_degF'', Val 68), (''Wind'', Val 6)])"
proof -
  let ?fr = "set_index_DateTime example_converted"
  let ?ml = "adjust_maxlags (length (rows ?fr)) 3"
  let ?df = "dropna (diff ?fr)"
  let ?ml2 = "adjust_maxlags (length (rows ?df)) ?ml"
  note T = train_var_model_lag_order [OF example_conversion refl refl refl refl, where maxlags = 3]
  have a: "\<exists>model aic. VAR (example_lib None 10) ?fr = Inr model \<and>
              select_order (example_lib None 10) model ?ml = Inr aic \<and>
              fit (example_lib None 10) model (case aic of None \<Rightarrow> 1 | Some a \<Rightarrow> a) = Inr 1"
    by (intro exI [of _ ?fr] exI [of _ None] conjI; code_simp)
  have b: "\<exists>model aic. VAR (example_lib (Some 2) 10) ?fr = Inr model \<and>
              select_order (example_lib (Some 2) 10) model ?ml = Inr aic \<and>
              fit (example_lib (Some 2) 10) model (case aic of None \<Rightarrow> 1 | Some a \<Rightarrow> a) = Inr 2"
    by (intro exI [of _ ?fr] exI [of _ "Some 2"] conjI; code_simp)
  have c1: "select_and_fit (example_lib None 3) ?fr ?ml = Inl LinAlgError"
    by code_simp
  have c2: "\<exists>model aic. VAR (example_lib None 3) ?df = Inr model \<and>
              select_order (example_lib None 3) model ?ml2 = Inr aic \<and>
              fit (example_lib None 3) model (case aic of None \<Rightarrow> 1 | Some a \<Rightarrow> a) = Inr 1"
    by (intro exI [of _ ?df] exI [of _ None] conjI; code_simp)
  have c3: "rows ?fr \<noteq> []"
    by code_simp
  have c4: "[(''Temp_degF'', Val 68), (''Wind'', Val 6)]
              = row_series (columns ?fr) (snd (last (rows ?fr)))"
    by code_simp
  have 1: "train_var_model (example_lib None 10) example_table 3 = Inr (1, None)"
    by (rule T [THEN conjunct1, THEN iffD2, OF a])
  have 2: "train_var_model (example_lib (Some 2) 10) example_table 3 = Inr (2, None)"
    by (rule T [THEN conjunct1, THEN iffD2, OF b])
  have 3: "train_var_model (example_lib None 3) example_table 3
     = Inr (1, Some [(''Temp_degF'', Val 68), (''Wind'', Val 6)])"
    by (rule T [THEN conjunct2, THEN iffD2, OF conjI [OF c1 conjI [OF c2 conjI [OF c3 c4]]]])
  from 1 2 3 show ?thesis by (intro conjI)
qed




section \<open>The single-series forecasters\<close>





section \<open>Variable preparation\<close>

text \<open>
  Claim C2 fails on the code. A label is matched without regard to case, but renamed
  only where it holds \<open>degC\<close> or \<open>DEGC\<close>: the column \<open>temp_degc\<close> is converted and keeps
  its label, so a second conversion converts its values again (0 becomes 32, then 89.6).
\<close>

theorem convert_twice_lower_case:
  "convert_temperature_to_fahrenheit lower_case_table
     = Inr \<lparr>columns = [''temp_degc'', ''Wind''], rows = [(0, [Val 32, Val 3])]\<rparr> \<and>
   convert_temperature_to_fahrenheit
       \<lparr>columns = [''temp_degc'', ''Wind''], rows = [(0::int, [Val 32, Val 3])]\<rparr>
     = Inr \<lparr>columns = [''temp_degc'', ''Wind''], rows = [(0, [Val (448 / 5), Val 3])]\<rparr>"
  by code_simp

section \<open>The simulator\<close>










lemma simulate_scenario_level:
  assumes "convert_temperature_to_fahrenheit data = Inr data_converted"
  shows "simulate_scenario L data m adj steps None =
     (case level_window (k_ar L m) (set_index_DateTime data_converted) adj of
        Inl e \<Rightarrow> Inl e
      | Inr modified_obs \<Rightarrow>
          (case forecast L m (frame_values modified_obs) steps of
             Inl e \<Rightarrow> Inl (Library e)
           | Inr fc \<Rightarrow>
               (case iloc_last (rows data) of
                  Inl e \<Rightarrow> Inl e
                | Inr r \<Rightarrow> DataFrame fc (forecast_index (fst r) steps)
                            (columns (set_index_DateTime data_converted)))))"
  using assms by (simp add: simulate_scenario_def Let_def)

lemma simulate_scenario_diff:
  assumes "convert_temperature_to_fahrenheit data = Inr data_converted"
  shows "simulate_scenario L data m adj steps (Some s) =
     (case diff_window (k_ar L m) (set_index_DateTime data_converted) adj s of
        Inl e \<Rightarrow> Inl e
      | Inr modified_obs_diff \<Rightarrow>
          (case forecast L m (frame_values modified_obs_diff) steps of
             Inl e \<Rightarrow> Inl (Library e)
           | Inr forecast_diff \<Rightarrow>
               (case forecast_level forecast_diff (columns (set_index_DateTime data_converted)) s of
                  Inl e \<Rightarrow> Inl e
                | Inr fl \<Rightarrow>
                    (case iloc_last (rows data) of
                       Inl e \<Rightarrow> Inl e
                     | Inr r \<Rightarrow> Inr (reindex fl (forecast_index (fst r) steps))))))"
  using assms by (simp add: simulate_scenario_def Let_def)





lemma DataFrame_Inr:
  "DataFrame a idx cols = Inr out \<Longrightarrow> columns out = cols \<and> map fst (rows out) = idx"
  by (auto simp: DataFrame_def split: if_splits)

lemma forecast_level_columns: "forecast_level fc cols s = Inr fl \<Longrightarrow> columns fl = cols"
  by (auto simp: forecast_level_def add_values_def cumsum_def DataFrame_def
           split: sum.splits if_splits)

lemma reindex_shape: "columns (reindex fr idx) = columns fr \<and> map fst (rows (reindex fr idx)) = idx"
  by (simp add: reindex_def comp_def)

lemma length_forecast_index: "length (forecast_index start steps) = steps"
  by (simp add: forecast_index_def)

text \<open>
  Claim C8. Whenever the simulator returns, in either branch and for every number of
  steps, the columns of the forecast table are the columns of the converted table (the
  variables of a model fitted on it), and its index is the \<open>steps\<close> hourly timestamps that
  follow the last timestamp of the input table; with 0 steps it has no row.
\<close>

theorem simulate_scenario_forecast_table:
  assumes conv: "convert_temperature_to_fahrenheit data = Inr data_converted"
    and res: "simulate_scenario L data var_results adj steps last_level = Inr out"
  shows "columns out = columns data_converted \<and>
         rows data \<noteq> [] \<and>
         map fst (rows out)
           = map (\<lambda>i. Timestamp (fst (last (rows data)) + 3600 * int i)) [1..<Suc steps] \<and>
         length (rows out) = steps"
proof -
  have cols: "columns (set_index_DateTime data_converted) = columns data_converted"
    by (simp add: set_index_DateTime_def)
  have "columns out = columns data_converted \<and> rows data \<noteq> [] \<and>
        map fst (rows out) = forecast_index (fst (last (rows data))) steps"
  proof (cases last_level)
    case None
    with res obtain fc r where r: "iloc_last (rows data) = Inr r"
      and d: "DataFrame fc (forecast_index (fst r) steps)
                (columns (set_index_DateTime data_converted)) = Inr out"
      unfolding None simulate_scenario_level [OF conv] by (auto split: sum.splits)
    from r have "rows data \<noteq> []" "r = last (rows data)"
      by (auto simp: iloc_last_def split: if_splits)
    with DataFrame_Inr [OF d] cols show ?thesis by simp
  next
    case (Some s)
    with res obtain fc fl r where r: "iloc_last (rows data) = Inr r"
      and fl: "forecast_level fc (columns (set_index_DateTime data_converted)) s = Inr fl"
      and out: "out = reindex fl (forecast_index (fst r) steps)"
      unfolding Some simulate_scenario_diff [OF conv] by (auto split: sum.splits)
    from r have "rows data \<noteq> []" "r = last (rows data)"
      by (auto simp: iloc_last_def split: if_splits)
    with forecast_level_columns [OF fl] out cols show ?thesis by (simp add: reindex_shape)
  qed
  then have a: "columns out = columns data_converted" and b: "rows data \<noteq> []"
    and c: "map fst (rows out) = forecast_index (fst (last (rows data))) steps"
    by simp_all
  from c have "length (map fst (rows out)) = steps"
    by (simp only: length_forecast_index)
  then have d: "length (rows out) = steps" by simp
  from c have e: "map fst (rows out)
           = map (\<lambda>i. Timestamp (fst (last (rows data)) + 3600 * int i)) [1..<Suc steps]"
    by (simp only: forecast_index_def)
  from a b e d show ?thesis by (intro conjI)
qed

text \<open>
  Claim C8 on the example table, whose last timestamp is 7200: two steps and no step, in
  the level branch and in the differenced branch.
\<close>

theorem simulate_scenario_forecast_table_witness:
  "(\<exists>out. simulate_scenario (example_lib None 10) example_table 2 [(''Temp_degF'', 2)] 2 None = Inr out \<and>
      columns out = [''Temp_degF'', ''Wind''] \<and>
      map fst (rows out) = [Timestamp 10800, Timestamp 14400]) \<and>
   (\<exists>out. simulate_scenario (example_lib None 10) example_table 2 [(''Temp_degF'', 2)] 2
             (Some example_snapshot) = Inr out \<and>
      columns out = [''Temp_degF'', ''Wind''] \<and>
      map fst (rows out) = [Timestamp 10800, Timestamp 14400]) \<and>
   (\<exists>out. simulate_scenario (example_lib None 10) example_table 2 [(''Temp_degF'', 2)] 0 None = Inr out \<and>
      columns out = [''Temp_degF'', ''Wind''] \<and> rows out = []) \<and>
   (\<exists>out. simulate_scenario (example_lib None 10) example_table 2 [(''Temp_degF'', 2)] 0
             (Some example_snapshot) = Inr out \<and>
      columns out = [''Temp_degF'', ''Wind''] \<and> rows out = [])"
proof -
  let ?L = "example_lib None 10"
  let ?adj = "[(''Temp_degF'', 2 :: real)]"
  note T = simulate_scenario_forecast_table [OF example_conversion]
  have c: "columns example_converted = [''Temp_degF'', ''Wind'']"
    by (simp add: example_converted_def)
  have i2: "map (\<lambda>i. Timestamp (fst (last (rows example_table)) + 3600 * int i)) [1..<Suc 2]
              = [Timestamp 10800, Timestamp 14400]"
    by code_simp
  obtain o1 where r1: "simulate_scenario ?L example_table 2 ?adj 2 None = Inr o1"
    by (rule that) code_simp
  obtain o2 where r2: "simulate_scenario ?L example_table 2 ?adj 2 (Some example_snapshot) = Inr o2"
    by (rule that) code_simp
  obtain o3 where r3: "simulate_scenario ?L example_table 2 ?adj 0 None = Inr o3"
    by (rule that) code_simp
  obtain o4 where r4: "simulate_scenario ?L example_table 2 ?adj 0 (Some example_snapshot) = Inr o4"
    by (rule that) code_simp
  note t1 = T [OF r1] and t2 = T [OF r2] and t3 = T [OF r3] and t4 = T [OF r4]
  have 1: "\<exists>out. simulate_scenario ?L example_table 2 ?adj 2 None = Inr out \<and>
      columns out = [''Temp_degF'', ''Wind''] \<and>
      map fst (rows out) = [Timestamp 10800, Timestamp 14400]"
    by (rule exI [of _ o1], intro conjI, rule r1, simp only: t1 [THEN conjunct1] c,
        simp only: t1 [THEN conjunct2, THEN conjunct2, THEN conjunct1] i2)
  have 2: "\<exists>out. simulate_scenario ?L example_table 2 ?adj 2 (Some example_snapshot) = Inr out \<and>
      columns out = [''Temp_degF'', ''Wind''] \<and>
      map fst (rows out) = [Timestamp 10800, Timestamp 14400]"
    by (rule exI [of _ o2], intro conjI, rule r2, simp only: t2 [THEN conjunct1] c,
        simp only: t2 [THEN conjunct2, THEN conjunct2, THEN conjunct1] i2)
  have e3: "rows o3 = []"
    using t3 [THEN conjunct2, THEN conjunct2, THEN conjunct2] by simp
  have 3: "\<exists>out. simulate_scenario ?L example_table 2 ?adj 0 None = Inr out \<and>
      columns out = [''Temp_degF'', ''Wind''] \<and> rows out = []"
    by (rule exI [of _ o3], intro conjI, rule r3, simp only: t3 [THEN conjunct1] c, rule e3)
  have e4: "rows o4 = []"
    using t4 [THEN conjunct2, THEN conjunct2, THEN conjunct2] by simp
  have 4: "\<exists>out. simulate_scenario ?L example_table 2 ?adj 0 (Some example_snapshot) = Inr out \<and>
      columns out = [''Temp_degF'', ''Wind''] \<and> rows out = []"
    by (rule exI [of _ o4], intro conjI, rule r4, simp only: t4 [THEN conjunct1] c, rule e4)
  from 1 2 3 4 show ?thesis by (intro conjI)
qed

subsection \<open>Adjustment keys that are no column\<close>

lemma agree_on_refl: "agree_on cols a a"
  by (simp add: agree_on_def list_all2_same)

lemma agree_on_labels: "agree_on cols a b \<Longrightarrow> map fst a = map fst b"
  unfolding agree_on_def by (induction a b rule: list_all2_induct) auto

lemma agree_on_lookup:
  "agree_on cols a b \<Longrightarrow> l \<in> set cols \<Longrightarrow> lookup_cell a l = lookup_cell b l"
  unfolding agree_on_def lookup_cell_def
  by (induction a b rule: list_all2_induct) (auto split: prod.splits)

lemma agree_on_update_same:
  "agree_on cols a b \<Longrightarrow>
   agree_on cols (map (\<lambda>(l, c). if l = var then (l, g c) else (l, c)) a)
                 (map (\<lambda>(l, c). if l = var then (l, g c) else (l, c)) b)"
  unfolding agree_on_def by (induction a b rule: list_all2_induct) (auto split: prod.splits)

lemma agree_on_update_left:
  "agree_on cols a b \<Longrightarrow> var \<notin> set cols \<Longrightarrow>
   agree_on cols (map (\<lambda>(l, c). if l = var then (l, g c) else (l, c)) a) b"
  unfolding agree_on_def by (induction a b rule: list_all2_induct) (auto split: prod.splits)

lemma adjust_new_last_filter:
  "agree_on cols s s' \<Longrightarrow>
   agree_on cols (adjust_new_last adj s)
                 (adjust_new_last (filter (\<lambda>p. fst p \<in> set cols) adj) s')"
proof (induction adj arbitrary: s s')
  case Nil
  then show ?case by simp
next
  case (Cons a adj)
  obtain var change where a: "a = (var, change)" by (cases a)
  from Cons.prems have lab: "map fst s = map fst s'" by (rule agree_on_labels)
  show ?case
  proof (cases "var \<in> set cols")
    case True
    show ?thesis
    proof (cases "var \<in> set (map fst s)")
      case present: True
      from Cons.prems have "agree_on cols
          (map (\<lambda>(l, c). if l = var then (l, cell_add c (Val change)) else (l, c)) s)
          (map (\<lambda>(l, c). if l = var then (l, cell_add c (Val change)) else (l, c)) s')"
        by (rule agree_on_update_same)
      from Cons.IH [OF this] show ?thesis using a True present lab by simp
    next
      case False
      with Cons.IH [OF Cons.prems] show ?thesis using a True lab by simp
    qed
  next
    case False
    show ?thesis
    proof (cases "var \<in> set (map fst s)")
      case present: True
      from Cons.prems False have "agree_on cols
          (map (\<lambda>(l, c). if l = var then (l, cell_add c (Val change)) else (l, c)) s) s'"
        by (rule agree_on_update_left)
      from Cons.IH [OF this] show ?thesis using a False present by simp
    next
      case absent: False
      with Cons.IH [OF Cons.prems] show ?thesis using a False by simp
    qed
  qed
qed

lemma agree_on_series_op_left:
  assumes "agree_on cols a a'"
  shows "agree_on cols (series_op f a b) (series_op f a' b)"
proof -
  from assms have lab: "map fst a = map fst a'" by (rule agree_on_labels)
  show ?thesis
  proof (cases "map fst a = map fst b")
    case True
    from assms have "list_all2 (\<lambda>p q. fst p = fst q \<and> (fst p \<in> set cols \<longrightarrow> snd p = snd q))
        (map2 (\<lambda>(l, x) (_, y). (l, f x y)) a b) (map2 (\<lambda>(l, x) (_, y). (l, f x y)) a' b)"
      unfolding agree_on_def
      by (auto simp: list_all2_conv_all_nth split: prod.splits)
    with True lab show ?thesis by (simp add: series_op_def agree_on_def)
  next
    case False
    have "list_all2 (\<lambda>p q. fst p = fst q \<and> (fst p \<in> set cols \<longrightarrow> snd p = snd q))
        (map (\<lambda>l. (l, f (lookup_cell a l) (lookup_cell b l))) ls)
        (map (\<lambda>l. (l, f (lookup_cell a' l) (lookup_cell b l))) ls)" for ls
      using agree_on_lookup [OF assms] by (induction ls) auto
    with False lab show ?thesis by (simp add: series_op_def agree_on_def)
  qed
qed

lemma agree_on_series_op_right:
  assumes "agree_on cols b b'"
  shows "agree_on cols (series_op f a b) (series_op f a b')"
proof -
  from assms have lab: "map fst b = map fst b'" by (rule agree_on_labels)
  show ?thesis
  proof (cases "map fst a = map fst b")
    case True
    then have len: "length a = length b" by (metis length_map)
    have fsts: "fst (a ! i) = fst (b ! i)" if "i < length a" for i
      using True that len by (metis nth_map)
    from assms len fsts have "list_all2 (\<lambda>p q. fst p = fst q \<and> (fst p \<in> set cols \<longrightarrow> snd p = snd q))
        (map2 (\<lambda>(l, x) (_, y). (l, f x y)) a b) (map2 (\<lambda>(l, x) (_, y). (l, f x y)) a b')"
      unfolding agree_on_def
      by (auto simp: list_all2_conv_all_nth split: prod.splits) (metis fst_conv snd_conv)+
    with True lab show ?thesis by (simp add: series_op_def agree_on_def)
  next
    case False
    have "list_all2 (\<lambda>p q. fst p = fst q \<and> (fst p \<in> set cols \<longrightarrow> snd p = snd q))
        (map (\<lambda>l. (l, f (lookup_cell a l) (lookup_cell b l))) ls)
        (map (\<lambda>l. (l, f (lookup_cell a l) (lookup_cell b' l))) ls)" for ls
      using agree_on_lookup [OF assms] by (induction ls) auto
    with False lab show ?thesis by (simp add: series_op_def agree_on_def)
  qed
qed

lemma agree_on_align_to:
  assumes "agree_on cols x x'"
  shows "align_to cols x = align_to cols x'"
proof -
  from assms have lab: "map fst x = map fst x'" by (rule agree_on_labels)
  show ?thesis
  proof (cases "map fst x = cols")
    case True
    have "list_all2 (\<lambda>p q. fst p = fst q \<and> (fst p \<in> set cols \<longrightarrow> snd p = snd q)) y y' \<Longrightarrow>
          set (map fst y) \<subseteq> set cols \<Longrightarrow> map snd y = map snd y'" for y y' :: series
      by (induction y y' rule: list_all2_induct) auto
    with assms True have "map snd x = map snd x'"
      unfolding agree_on_def by blast
    with True lab show ?thesis by (simp add: align_to_def)
  next
    case False
    with lab agree_on_lookup [OF assms] show ?thesis by (simp add: align_to_def)
  qed
qed


lemma adjust_last_obs_filter:
  "adjust_last_obs (filter (\<lambda>p. fst p \<in> set cols) adj) cols obs = adjust_last_obs adj cols obs"
  by (induction adj arbitrary: obs) (auto split: sum.splits)

lemma level_window_filter:
  "level_window k fr (filter (\<lambda>p. fst p \<in> set (columns fr)) adj) = level_window k fr adj"
  by (simp add: level_window_def adjust_last_obs_filter)

lemma diff_window_filter:
  "diff_window k fr (filter (\<lambda>p. fst p \<in> set (columns fr)) adj) s = diff_window k fr adj s"
proof -
  let ?cols = "columns fr"
  let ?adj' = "filter (\<lambda>p. fst p \<in> set ?cols) adj"
  have c: "columns (dropna (diff fr)) = ?cols"
    by (simp add: dropna_def diff_def split: list.splits prod.splits)
  have n: "agree_on ?cols (adjust_new_last adj s) (adjust_new_last ?adj' s)"
    by (rule adjust_new_last_filter [OF agree_on_refl])
  have "align_to ?cols (series_op cell_add row (series_op cell_sub (adjust_new_last adj s) orig))
      = align_to ?cols (series_op cell_add row (series_op cell_sub (adjust_new_last ?adj' s) orig))"
    for row orig
    by (rule agree_on_align_to, rule agree_on_series_op_right, rule agree_on_series_op_left, rule n)
  then show ?thesis
    by (simp add: diff_window_def diff_adjustment_def Let_def c
             split: sum.splits)
qed

lemma columns_set_index [simp]: "columns (set_index_DateTime data) = columns data"
  by (simp add: set_index_DateTime_def)

lemma level_window_empty:
  "level_window k fr [] = Inr (fr\<lparr>rows := iloc_tail k (rows fr)\<rparr>)"
  by (simp add: level_window_def)

lemma series_op_zip:
  "length x = length cols \<Longrightarrow> length y = length cols \<Longrightarrow>
   series_op f (zip cols x) (zip cols y) = zip cols (map2 f x y)"
proof -
  assume x: "length x = length cols" and y: "length y = length cols"
  then have l: "map fst (zip cols x) = map fst (zip cols y)" by simp
  from x y have "length cols = length x" "length x = length y" by simp_all
  then have "map2 (\<lambda>(l, a) (_, b). (l, f a b)) (zip cols x) (zip cols y) = zip cols (map2 f x y)"
    by (induction cols x y rule: list_induct3) auto
  with l show ?thesis by (simp add: series_op_def)
qed

lemma align_to_zip: "length z = length cols \<Longrightarrow> align_to cols (zip cols z) = z"
  by (simp add: align_to_def)

lemma cell_sub_self: "\<not> list_ex is_nan l \<Longrightarrow> map2 cell_sub l l = map (\<lambda>_. Val 0) l"
proof (induction l)
  case Nil
  then show ?case by simp
next
  case (Cons c l)
  then show ?case by (cases c) auto
qed

lemma cell_add_zero:
  "length r = length l \<Longrightarrow> \<not> list_ex is_nan r \<Longrightarrow> map2 cell_add r (map (\<lambda>_. Val 0) l) = r"
proof (induction r l rule: list_induct2)
  case Nil
  then show ?case by simp
next
  case (Cons c r d l)
  then show ?case by (cases c) auto
qed

lemma unadjusted_last_row:
  assumes r: "length r = length cols" "\<not> list_ex is_nan r"
    and l: "length l = length cols" "\<not> list_ex is_nan l"
  shows "align_to cols (series_op cell_add (row_series cols r)
           (series_op cell_sub (row_series cols l) (row_series cols l))) = r"
proof -
  have "series_op cell_sub (zip cols l) (zip cols l) = zip cols (map (\<lambda>_. Val 0) l)"
    using l by (simp add: series_op_zip cell_sub_self)
  moreover have "series_op cell_add (zip cols r) (zip cols (map (\<lambda>_. Val 0) l)) = zip cols r"
    using r l by (simp add: series_op_zip cell_add_zero)
  ultimately show ?thesis using r by (simp add: row_series_def align_to_zip)
qed

lemma diff_rows_width:
  "list_all (\<lambda>r. length (snd r) = n) rs \<Longrightarrow> length prev = n \<Longrightarrow>
   list_all (\<lambda>r. length (snd r) = n) (diff_rows prev rs)"
  by (induction prev rs rule: diff_rows.induct) auto

lemma dropna_diff_rows:
  assumes "list_all (\<lambda>r. length (snd r) = length (columns fr)) (rows fr)"
    and "r \<in> set (rows (dropna (diff fr)))"
  shows "length (snd r) = length (columns fr) \<and> \<not> list_ex is_nan (snd r)"
proof -
  from assms(1) have "list_all (\<lambda>r. length (snd r) = length (columns fr)) (rows (diff fr))"
    by (auto simp: diff_def diff_rows_width split: list.splits)
  with assms(2) show ?thesis
    by (auto simp: dropna_def list_all_iff)
qed

lemma diff_window_empty_adjustments:
  assumes rect: "list_all (\<lambda>r. length (snd r) = length (columns fr)) (rows fr)"
    and ne: "rows fr \<noteq> []"
    and nonan: "\<not> list_ex is_nan (snd (last (rows fr)))"
    and win: "iloc_tail k (rows (dropna (diff fr))) \<noteq> []"
  shows "diff_window k fr [] (row_series (columns fr) (snd (last (rows fr))))
           = Inr ((dropna (diff fr))\<lparr>rows := iloc_tail k (rows (dropna (diff fr)))\<rparr>)"
proof -
  let ?cols = "columns fr"
  let ?lo = "iloc_tail k (rows (dropna (diff fr)))"
  let ?l = "snd (last (rows fr))"
  have c: "columns (dropna (diff fr)) = ?cols"
    by (simp add: dropna_def diff_def split: list.splits prod.splits)
  from win have "last ?lo \<in> set ?lo" by simp
  then have "last ?lo \<in> set (rows (dropna (diff fr)))"
    by (auto simp: iloc_tail_def split: if_splits dest: in_set_dropD)
  from dropna_diff_rows [OF rect this]
  have r: "length (snd (last ?lo)) = length ?cols" "\<not> list_ex is_nan (snd (last ?lo))"
    by simp_all
  from rect ne have l: "length ?l = length ?cols"
    by (simp add: list_all_iff)
  have "align_to ?cols (series_op cell_add (row_series ?cols (snd (last ?lo)))
           (series_op cell_sub (row_series ?cols ?l) (row_series ?cols ?l))) = snd (last ?lo)"
    by (rule unadjusted_last_row [OF r l nonan])
  moreover from win have "butlast ?lo @ [(fst (last ?lo), snd (last ?lo))] = ?lo"
    by simp
  ultimately show ?thesis
    using win ne by (simp add: diff_window_def diff_adjustment_def Let_def iloc_last_def c)
qed

text \<open>
  Claim C6. In both branches the simulator gives the same result, forecast or exception,
  for an adjustment set and for its restriction to the columns of the converted table:
  a key that is no column raises nothing and changes nothing. With the empty adjustment
  set the level branch is the model's forecast from the unmodified window of the last
  \<open>k\<close> rows; and in the differenced branch, with the snapshot the fitter returns (the
  last row of a table without gaps), the forecasting routine is likewise given the
  unmodified window of differenced rows.
\<close>

theorem simulate_scenario_unknown_keys:
  assumes conv: "convert_temperature_to_fahrenheit data = Inr data_converted"
    and fr: "data_indexed = set_index_DateTime data_converted"
    and dd: "data_diff = dropna (diff data_indexed)"
    and k: "k = k_ar L var_results"
  shows "simulate_scenario L data var_results adj steps last_level
           = simulate_scenario L data var_results
               (filter (\<lambda>p. fst p \<in> set (columns data_converted)) adj) steps last_level \<and>
         simulate_scenario L data var_results [] steps None
           = (case forecast L var_results
                     (frame_values (data_indexed\<lparr>rows := iloc_tail k (rows data_indexed)\<rparr>)) steps of
                Inl e \<Rightarrow> Inl (Library e)
              | Inr forecast_values \<Rightarrow>
                  (case iloc_last (rows data) of
                     Inl e \<Rightarrow> Inl e
                   | Inr r \<Rightarrow> DataFrame forecast_values (forecast_index (fst r) steps)
                               (columns data_converted))) \<and>
         (list_all (\<lambda>r. length (snd r) = length (columns data_indexed)) (rows data_indexed) \<and>
          rows data_indexed \<noteq> [] \<and>
          \<not> list_ex is_nan (snd (last (rows data_indexed))) \<and>
          iloc_tail k (rows data_diff) \<noteq> [] \<and>
          snapshot = row_series (columns data_indexed) (snd (last (rows data_indexed))) \<longrightarrow>
          simulate_scenario L data var_results [] steps (Some snapshot)
            = (case forecast L var_results
                      (frame_values (data_diff\<lparr>rows := iloc_tail k (rows data_diff)\<rparr>)) steps of
                 Inl e \<Rightarrow> Inl (Library e)
               | Inr forecast_diff \<Rightarrow>
                   (case forecast_level forecast_diff (columns data_indexed) snapshot of
                      Inl e \<Rightarrow> Inl e
                    | Inr fl \<Rightarrow>
                        (case iloc_last (rows data) of
                           Inl e \<Rightarrow> Inl e
                         | Inr r \<Rightarrow> Inr (reindex fl (forecast_index (fst r) steps))))))"
proof (intro conjI impI)
  show "simulate_scenario L data var_results adj steps last_level
           = simulate_scenario L data var_results
               (filter (\<lambda>p. fst p \<in> set (columns data_converted)) adj) steps last_level"
  proof (cases last_level)
    case None
    show ?thesis
      unfolding None simulate_scenario_level [OF conv]
      using level_window_filter [of "k_ar L var_results" "set_index_DateTime data_converted" adj]
      by simp
  next
    case (Some s)
    show ?thesis
      unfolding Some simulate_scenario_diff [OF conv]
      using diff_window_filter [of "k_ar L var_results" "set_index_DateTime data_converted" adj s]
      by simp
  qed
next
  show "simulate_scenario L data var_results [] steps None
           = (case forecast L var_results
                     (frame_values (data_indexed\<lparr>rows := iloc_tail k (rows data_indexed)\<rparr>)) steps of
                Inl e \<Rightarrow> Inl (Library e)
              | Inr forecast_values \<Rightarrow>
                  (case iloc_last (rows data) of
                     Inl e \<Rightarrow> Inl e
                   | Inr r \<Rightarrow> DataFrame forecast_values (forecast_index (fst r) steps)
                               (columns data_converted)))"
    unfolding simulate_scenario_level [OF conv] level_window_empty fr k columns_set_index by simp
next
  assume h: "list_all (\<lambda>r. length (snd r) = length (columns data_indexed)) (rows data_indexed) \<and>
          rows data_indexed \<noteq> [] \<and>
          \<not> list_ex is_nan (snd (last (rows data_indexed))) \<and>
          iloc_tail k (rows data_diff) \<noteq> [] \<and>
          snapshot = row_series (columns data_indexed) (snd (last (rows data_indexed)))"
  then have w: "diff_window k data_indexed [] snapshot
           = Inr (data_diff\<lparr>rows := iloc_tail k (rows data_diff)\<rparr>)"
    unfolding dd using diff_window_empty_adjustments [of data_indexed k] by simp
  show "simulate_scenario L data var_results [] steps (Some snapshot)
            = (case forecast L var_results
                      (frame_values (data_diff\<lparr>rows := iloc_tail k (rows data_diff)\<rparr>)) steps of
                 Inl e \<Rightarrow> Inl (Library e)
               | Inr forecast_diff \<Rightarrow>
                   (case forecast_level forecast_diff (columns data_indexed) snapshot of
                      Inl e \<Rightarrow> Inl e
                    | Inr fl \<Rightarrow>
                        (case iloc_last (rows data) of
                           Inl e \<Rightarrow> Inl e
                         | Inr r \<Rightarrow> Inr (reindex fl (forecast_index (fst r) steps)))))"
    unfolding simulate_scenario_diff [OF conv] fr [symmetric] k [symmetric] w by simp
qed

text \<open>
  Claim C6 on the example table: the key \<open>Pressure\<close> is no column and changes nothing in
  either branch, and the empty adjustment set forecasts from the unmodified windows.
\<close>

theorem simulate_scenario_unknown_keys_witness:
  "simulate_scenario (example_lib None 10) example_table 2 [(''Temp_degF'', 2), (''Pressure'', 5)] 2 None
     = simulate_scenario (example_lib None 10) example_table 2 [(''Temp_degF'', 2)] 2 None \<and>
   simulate_scenario (example_lib None 10) example_table 2 [(''Temp_degF'', 2), (''Pressure'', 5)] 2
       (Some example_snapshot)
     = simulate_scenario (example_lib None 10) example_table 2 [(''Temp_degF'', 2)] 2
         (Some example_snapshot) \<and>
   simulate_scenario (example_lib None 10) example_table 2 [] 2 None
     = Inr \<lparr>columns = [''Temp_degF'', ''Wind''],
            rows = [(Timestamp 10800, [Val 68, Val 6]), (Timestamp 14400, [Val 68, Val 6])]\<rparr> \<and>
   simulate_scenario (example_lib None 10) example_table 2 [] 2 (Some example_snapshot)
     = Inr \<lparr>columns = [''Temp_degF'', ''Wind''],
            rows = [(Timestamp 10800, [NaN, NaN]), (Timestamp 14400, [NaN, NaN])]\<rparr>"
proof -
  let ?L = "example_lib None 10"
  let ?fr = "set_index_DateTime example_converted"
  let ?dd = "dropna (diff ?fr)"
  have k: "(2::nat) = k_ar ?L 2" by (simp add: example_lib_def)
  note T = simulate_scenario_unknown_keys [OF example_conversion refl refl k]
  have f: "filter (\<lambda>p. fst p \<in> set (columns example_converted)) [(''Temp_degF'', 2 :: real), (''Pressure'', 5)]
             = [(''Temp_degF'', 2)]"
    by (simp add: example_converted_def)
  have 1: "simulate_scenario ?L example_table 2 [(''Temp_degF'', 2), (''Pressure'', 5)] 2 None
     = simulate_scenario ?L example_table 2 [(''Temp_degF'', 2)] 2 None"
    using T [where adj = "[(''Temp_degF'', 2), (''Pressure'', 5)]" and last_level = None, THEN conjunct1]
    by (simp only: f)
  have 2: "simulate_scenario ?L example_table 2 [(''Temp_degF'', 2), (''Pressure'', 5)] 2 (Some example_snapshot)
     = simulate_scenario ?L example_table 2 [(''Temp_degF'', 2)] 2 (Some example_snapshot)"
    using T [where adj = "[(''Temp_degF'', 2), (''Pressure'', 5)]"
               and last_level = "Some example_snapshot", THEN conjunct1]
    by (simp only: f)
  have 3: "simulate_scenario ?L example_table 2 [] 2 None
     = Inr \<lparr>columns = [''Temp_degF'', ''Wind''],
            rows = [(Timestamp 10800, [Val 68, Val 6]), (Timestamp 14400, [Val 68, Val 6])]\<rparr>"
    by (rule trans [OF T [THEN conjunct2, THEN conjunct1]]) code_simp
  have h: "list_all (\<lambda>r. length (snd r) = length (columns ?fr)) (rows ?fr) \<and>
          rows ?fr \<noteq> [] \<and>
          \<not> list_ex is_nan (snd (last (rows ?fr))) \<and>
          iloc_tail 2 (rows ?dd) \<noteq> [] \<and>
          example_snapshot = row_series (columns ?fr) (snd (last (rows ?fr)))"
    by (intro conjI; code_simp)
  have 4: "simulate_scenario ?L example_table 2 [] 2 (Some example_snapshot)
     = Inr \<lparr>columns = [''Temp_degF'', ''Wind''],
            rows = [(Timestamp 10800, [NaN, NaN]), (Timestamp 14400, [NaN, NaN])]\<rparr>"
    by (rule trans [OF T [THEN conjunct2, THEN conjunct2, THEN mp, OF h]]) code_simp
  from 1 2 3 4 show ?thesis by (intro conjI)
qed

subsection \<open>The differenced branch\<close>

lemma length_cumsum_rows: "length (cumsum_rows acc rs) = length rs"
  by (induction acc rs rule: cumsum_rows.induct) auto

lemma cumsum_rows_nth:
  "list_all (\<lambda>r. length (snd r) = length acc) rs \<Longrightarrow> i < length rs \<Longrightarrow> j < length acc \<Longrightarrow>
   cumsum_rows acc rs ! i =
     (fst (rs ! i), snd (cumsum_rows acc rs ! i)) \<and>
   snd (cumsum_rows acc rs ! i) ! j =
     (if is_nan (snd (rs ! i) ! j) then NaN
      else Val (acc ! j + (\<Sum>t\<le>i. cell_value (snd (rs ! t) ! j))))"
proof (induction acc rs arbitrary: i rule: cumsum_rows.induct)
  case (1 acc)
  then show ?case by simp
next
  case (2 acc k cs rs)
  let ?acc' = "map2 (\<lambda>a c. case c of NaN \<Rightarrow> a | Val x \<Rightarrow> a + x) acc cs"
  from "2.prems" have len: "length cs = length acc" by simp
  with "2.prems" have accj: "?acc' ! j = acc ! j + cell_value (cs ! j)"
    by (cases "cs ! j") auto
  show ?case
  proof (cases i)
    case 0
    with "2.prems" len show ?thesis by (cases "cs ! j") auto
  next
    case (Suc i')
    from "2.prems" len have a: "list_all (\<lambda>r. length (snd r) = length ?acc') rs"
      by simp
    from "2.prems" Suc have b: "i' < length rs" by simp
    from "2.prems" len have c: "j < length ?acc'" by simp
    note IH = "2.IH" [OF a b c]
    have s: "(\<Sum>t\<le>Suc i'. cell_value (snd (((k, cs) # rs) ! t) ! j))
           = cell_value (cs ! j) + (\<Sum>t\<le>i'. cell_value (snd (rs ! t) ! j))"
      unfolding sum.atMost_Suc_shift by simp
    from IH show ?thesis
      unfolding Suc s accj by (simp add: add.assoc)
  qed
qed

lemma forecast_level_cells:
  assumes fl: "forecast_level fc cols last_level = Inr fl"
    and arr: "list_all (\<lambda>r. length r = nd_cols fc) (nd_rows fc)"
    and i: "i < length (nd_rows fc)" and j: "j < length cols"
  shows "length (rows fl) = length (nd_rows fc) \<and>
         snd (rows fl ! i) ! j =
           cell_add (if is_nan (nd_rows fc ! i ! j) then NaN
                     else Val (\<Sum>t\<le>i. cell_value (nd_rows fc ! t ! j)))
                    (snd (last_level ! j))"
proof -
  let ?n = "length (nd_rows fc)"
  let ?rs = "zip (map RangeIndex [0..<?n]) (nd_rows fc)"
  let ?cs = "cumsum_rows (replicate (length cols) 0) ?rs"
  from fl have w: "nd_cols fc = length cols" and ll: "length last_level = length cols"
    and r: "rows fl = map (\<lambda>(k, cs). (k, map2 cell_add cs (map snd last_level))) ?cs"
    by (auto simp: forecast_level_def DataFrame_def add_values_def cumsum_def
             split: if_splits sum.splits)
  from arr w have a: "list_all (\<lambda>r. length (snd r) = length (replicate (length cols) (0::real))) ?rs"
    by (auto simp: list_all_iff dest: set_zip_rightD)
  from i have i': "i < length ?rs" by simp
  from j have j': "j < length (replicate (length cols) (0::real))" by simp
  have nth: "snd (?rs ! t) = nd_rows fc ! t" if "t < ?n" for t
    using that by simp
  have sum: "(\<Sum>t\<le>i. cell_value (snd (?rs ! t) ! j)) = (\<Sum>t\<le>i. cell_value (nd_rows fc ! t ! j))"
    using i by (intro sum.cong) (auto simp: nth)
  from cumsum_rows_nth [OF a i' j', THEN conjunct2] j i
  have c: "snd (?cs ! i) ! j
             = (if is_nan (nd_rows fc ! i ! j) then NaN
                else Val (\<Sum>t\<le>i. cell_value (nd_rows fc ! t ! j)))"
    unfolding sum by (simp add: nth)
  have wi: "length (snd (?cs ! i)) = length cols"
  proof -
    have "list_all (\<lambda>r. length (snd r) = length acc) rs \<Longrightarrow>
          list_all (\<lambda>r. length (snd r) = length acc) (cumsum_rows acc rs)" for acc and rs :: "(label \<times> cell list) list"
      by (induction acc rs rule: cumsum_rows.induct) auto
    from this [OF a] i' show ?thesis by (simp add: list_all_length length_cumsum_rows)
  qed
  have "snd (rows fl ! i) = map2 cell_add (snd (?cs ! i)) (map snd last_level)"
    using i' by (simp add: r length_cumsum_rows split: prod.splits)
  with wi ll j c have "snd (rows fl ! i) ! j
      = cell_add (if is_nan (nd_rows fc ! i ! j) then NaN
                else Val (\<Sum>t\<le>i. cell_value (nd_rows fc ! t ! j))) (snd (last_level ! j))"
    by simp
  moreover have "length (rows fl) = ?n" by (simp add: r length_cumsum_rows)
  ultimately show ?thesis by simp
qed

lemma adjust_new_last_labels: "map fst (adjust_new_last adj s) = map fst s"
proof (induction adj arbitrary: s)
  case Nil
  then show ?case by simp
next
  case (Cons a adj)
  obtain var change where a: "a = (var, change)" by (cases a)
  have "map fst (map (\<lambda>(l, c). if l = var then (l, cell_add c (Val change)) else (l, c)) s) = map fst s"
    by (induction s) (auto split: prod.splits)
  with Cons.IH a show ?case by simp
qed

lemma adjust_new_last_other:
  "v \<notin> fst ` set adj \<Longrightarrow> j < length s \<Longrightarrow> s ! j = (v, c) \<Longrightarrow>
   adjust_new_last adj s ! j = (v, c)"
proof (induction adj arbitrary: s)
  case Nil
  then show ?case by simp
next
  case (Cons a adj)
  obtain var change where a: "a = (var, change)" by (cases a)
  let ?s' = "map (\<lambda>(l, c). if l = var then (l, cell_add c (Val change)) else (l, c)) s"
  from Cons.prems a have ne: "var \<noteq> v" and rest: "v \<notin> fst ` set adj" by auto
  from Cons.prems ne have "?s' ! j = (v, c)" "j < length ?s'" by simp_all
  with Cons.IH [OF rest] Cons.IH [OF rest Cons.prems(2,3)] a show ?case by simp
qed

lemma adjust_new_last_key:
  "distinct (map fst adj) \<Longrightarrow> (v, delta) \<in> set adj \<Longrightarrow> j < length s \<Longrightarrow> s ! j = (v, c) \<Longrightarrow>
   adjust_new_last adj s ! j = (v, cell_add c (Val delta))"
proof (induction adj arbitrary: s c)
  case Nil
  then show ?case by simp
next
  case (Cons a adj)
  obtain var change where a: "a = (var, change)" by (cases a)
  let ?s' = "map (\<lambda>(l, c). if l = var then (l, cell_add c (Val change)) else (l, c)) s"
  from Cons.prems a have d: "distinct (map fst adj)" and nk: "var \<notin> fst ` set adj" by auto
  show ?case
  proof (cases "var = v")
    case True
    with Cons.prems a nk have dl: "change = delta"
      by (auto simp: image_iff)
    from Cons.prems True have "v \<in> set (map fst s)"
      by (metis fst_conv nth_map nth_mem length_map)
    moreover from Cons.prems True dl have "?s' ! j = (v, cell_add c (Val delta))" "j < length ?s'"
      by simp_all
    moreover from nk True have "v \<notin> fst ` set adj" by simp
    ultimately show ?thesis using a True adjust_new_last_other [of v adj j ?s'] by simp
  next
    case False
    with Cons.prems a have m: "(v, delta) \<in> set adj" by auto
    from Cons.prems False have "?s' ! j = (v, c)" "j < length ?s'" by simp_all
    with Cons.IH [OF d m] Cons.IH [OF d m Cons.prems(3,4)] a show ?thesis by simp
  qed
qed

lemma series_op_labelled_right:
  assumes "length x = length cols" and "map fst b = cols"
  shows "series_op f (zip cols x) b = zip cols (map2 f x (map snd b))"
proof -
  from assms(2) have "b = zip cols (map snd b)" by (metis zip_map_fst_snd)
  moreover from assms(2) have "length (map snd b) = length cols" by (metis length_map)
  ultimately show ?thesis using series_op_zip [OF assms(1), of "map snd b" f] by simp
qed

lemma series_op_labelled_left:
  assumes "map fst a = cols" and "length y = length cols"
  shows "series_op f a (zip cols y) = zip cols (map2 f (map snd a) y)"
proof -
  from assms(1) have "a = zip cols (map snd a)" by (metis zip_map_fst_snd)
  moreover from assms(1) have "length (map snd a) = length cols" by (metis length_map)
  ultimately show ?thesis using series_op_zip [OF _ assms(2), of "map snd a" f] by simp
qed

lemma diff_adjustment_labelled:
  assumes lab: "map fst last_level = columns fr"
    and ne: "rows fr \<noteq> []"
    and w: "length (snd (last (rows fr))) = length (columns fr)"
  shows "diff_adjustment fr adj last_level
           = Inr (zip (columns fr)
                   (map2 cell_sub (map snd (adjust_new_last adj last_level)) (snd (last (rows fr)))))"
proof -
  from lab have "map fst (adjust_new_last adj last_level) = columns fr"
    by (simp add: adjust_new_last_labels)
  from series_op_labelled_left [OF this w] ne show ?thesis
    by (simp add: diff_adjustment_def iloc_last_def row_series_def)
qed

text \<open>
  What the differenced branch computes up to its level reconstruction, in the exact
  arithmetic of the model. For a table whose rows have a cell for every column, a
  snapshot labelled by the table's columns and the adjustment keys of a dict: the net
  level adjustment of an adjusted variable of the snapshot is
  \<open>(last_level + delta) - original_last\<close>, where \<open>original_last\<close> is the last row of the
  converted table, hence \<open>delta\<close> where the snapshot holds that row's value; the
  adjustment is added to the last row of the window of differenced rows and to no
  other; the forecast is made from that window; and \<open>forecast_level\<close>, computed from
  the forecast differences, is their cumulative sum (a \<open>NaN\<close> skipped) added to the
  values of the snapshot.
\<close>

theorem simulate_scenario_differenced:
  assumes conv: "convert_temperature_to_fahrenheit data = Inr data_converted"
    and fr: "data_indexed = set_index_DateTime data_converted"
    and lo: "last_obs_diff = iloc_tail (k_ar L var_results) (rows (dropna (diff data_indexed)))"
    and ol: "original_last = snd (last (rows data_indexed))"
    and rect: "list_all (\<lambda>r. length (snd r) = length (columns data_indexed)) (rows data_indexed)"
    and lab: "map fst last_level = columns data_indexed"
    and dist: "distinct (map fst adjustments)"
    and win: "diff_window (k_ar L var_results) data_indexed adjustments last_level
                = Inr modified_obs_diff"
  shows "\<exists>da. diff_adjustment data_indexed adjustments last_level = Inr da \<and>
           (\<forall>j v x y delta.
               j < length last_level \<and> last_level ! j = (v, Val x) \<and> original_last ! j = Val y \<and>
               (v, delta) \<in> set adjustments \<longrightarrow>
                 da ! j = (v, Val ((x + delta) - y)) \<and> (x = y \<longrightarrow> da ! j = (v, Val delta))) \<and>
           butlast (rows modified_obs_diff) = butlast last_obs_diff \<and>
           last (rows modified_obs_diff)
             = (fst (last last_obs_diff), map2 cell_add (snd (last last_obs_diff)) (map snd da)) \<and>
           (\<forall>out. simulate_scenario L data var_results adjustments steps (Some last_level) = Inr out \<longrightarrow>
               (\<exists>forecast_diff fl.
                   forecast L var_results (frame_values modified_obs_diff) steps = Inr forecast_diff \<and>
                   forecast_level forecast_diff (columns data_indexed) last_level = Inr fl)) \<and>
           (\<forall>forecast_diff fl i j.
               forecast_level forecast_diff (columns data_indexed) last_level = Inr fl \<and>
               list_all (\<lambda>r. length r = nd_cols forecast_diff) (nd_rows forecast_diff) \<and>
               i < length (nd_rows forecast_diff) \<and> j < length (columns data_indexed) \<longrightarrow>
                 snd (rows fl ! i) ! j
                   = cell_add (if is_nan (nd_rows forecast_diff ! i ! j) then NaN
                               else Val (\<Sum>t\<le>i. cell_value (nd_rows forecast_diff ! t ! j)))
                              (snd (last_level ! j)))"
proof -
  let ?cols = "columns data_indexed"
  let ?dd = "dropna (diff data_indexed)"
  let ?nl = "adjust_new_last adjustments last_level"
  let ?da = "zip ?cols (map2 cell_sub (map snd ?nl) original_last)"
  have c: "columns ?dd = ?cols"
    by (simp add: dropna_def diff_def split: list.splits prod.splits)
  from win have ne: "rows data_indexed \<noteq> []"
    by (auto simp: diff_window_def diff_adjustment_def iloc_last_def Let_def
             split: sum.splits if_splits)
  with rect have w: "length original_last = length ?cols"
    unfolding ol by (simp add: list_all_iff)
  from lab have len: "length last_level = length ?cols" by (metis length_map)
  have nll: "map fst ?nl = ?cols" "length ?nl = length ?cols"
    using lab adjust_new_last_labels [of adjustments last_level] len
    by (simp, metis length_map)
  have da: "diff_adjustment data_indexed adjustments last_level = Inr ?da"
    unfolding ol by (rule diff_adjustment_labelled [OF lab ne w [unfolded ol]])
  have dalab: "map fst ?da = ?cols" "length ?da = length ?cols"
    using w nll by simp_all
  have 1: "da' ! j = (v, Val ((x + delta) - y)) \<and> (x = y \<longrightarrow> da' ! j = (v, Val delta))"
    if h: "j < length last_level \<and> last_level ! j = (v, Val x) \<and> original_last ! j = Val y \<and>
           (v, delta) \<in> set adjustments" and d: "da' = ?da"
    for j v x y delta da'
  proof -
    from h have j: "j < length last_level" and lj: "last_level ! j = (v, Val x)"
      and oj: "original_last ! j = Val y" and m: "(v, delta) \<in> set adjustments"
      by simp_all
    from adjust_new_last_key [OF dist m j lj]
    have n: "?nl ! j = (v, Val (x + delta))" by simp
    from j lj lab have cj: "?cols ! j = v" by (metis fst_conv nth_map)
    from j len w nll n oj cj have "?da ! j = (v, Val ((x + delta) - y))"
      by simp
    with d show ?thesis by simp
  qed
  from win da lo have ll: "last_obs_diff \<noteq> []"
    and rw: "rows modified_obs_diff = butlast last_obs_diff @
          [(fst (last last_obs_diff),
            align_to ?cols (series_op cell_add (row_series ?cols (snd (last last_obs_diff))) ?da))]"
    by (auto simp: diff_window_def Let_def iloc_last_def c split: sum.splits if_splits)
  from ll have "last last_obs_diff \<in> set last_obs_diff" by simp
  then have "last last_obs_diff \<in> set (rows ?dd)"
    unfolding lo by (auto simp: iloc_tail_def split: if_splits dest: in_set_dropD)
  from dropna_diff_rows [OF rect this]
  have lr: "length (snd (last last_obs_diff)) = length ?cols" by simp
  have "series_op cell_add (row_series ?cols (snd (last last_obs_diff))) ?da
          = zip ?cols (map2 cell_add (snd (last last_obs_diff)) (map snd ?da))"
    unfolding row_series_def by (rule series_op_labelled_right [OF lr dalab(1)])
  moreover have "length (map2 cell_add (snd (last last_obs_diff)) (map snd ?da)) = length ?cols"
    using lr dalab(2) by simp
  ultimately have "align_to ?cols (series_op cell_add (row_series ?cols (snd (last last_obs_diff))) ?da)
          = map2 cell_add (snd (last last_obs_diff)) (map snd ?da)"
    by (simp only: align_to_zip)
  with rw have 2: "butlast (rows modified_obs_diff) = butlast last_obs_diff"
    and 3: "last (rows modified_obs_diff)
             = (fst (last last_obs_diff), map2 cell_add (snd (last last_obs_diff)) (map snd ?da))"
    by simp_all
  have 4: "\<exists>forecast_diff fl.
        forecast L var_results (frame_values modified_obs_diff) steps = Inr forecast_diff \<and>
        forecast_level forecast_diff ?cols last_level = Inr fl"
    if "simulate_scenario L data var_results adjustments steps (Some last_level) = Inr out" for out
    using that win unfolding simulate_scenario_diff [OF conv] fr [symmetric]
    by (auto split: sum.splits)
  have 5: "snd (rows fl ! i) ! j
         = cell_add (if is_nan (nd_rows forecast_diff ! i ! j) then NaN
                     else Val (\<Sum>t\<le>i. cell_value (nd_rows forecast_diff ! t ! j)))
                    (snd (last_level ! j))"
    if "forecast_level forecast_diff ?cols last_level = Inr fl \<and>
        list_all (\<lambda>r. length r = nd_cols forecast_diff) (nd_rows forecast_diff) \<and>
        i < length (nd_rows forecast_diff) \<and> j < length ?cols" for forecast_diff fl i j
    using that forecast_level_cells [of forecast_diff ?cols last_level fl i j] by simp
  show ?thesis
  proof (rule exI [of _ ?da], intro conjI allI impI)
    show "diff_adjustment data_indexed adjustments last_level = Inr ?da" by (rule da)
  next
    fix j v x y delta
    assume "j < length last_level \<and> last_level ! j = (v, Val x) \<and> original_last ! j = Val y \<and>
           (v, delta) \<in> set adjustments"
    from 1 [OF this refl] show "?da ! j = (v, Val ((x + delta) - y))" by simp
  next
    fix j v x y delta
    assume "j < length last_level \<and> last_level ! j = (v, Val x) \<and> original_last ! j = Val y \<and>
           (v, delta) \<in> set adjustments" and "x = y"
    with 1 [OF this(1) refl] show "?da ! j = (v, Val delta)" by simp
  next
    show "butlast (rows modified_obs_diff) = butlast last_obs_diff" by (rule 2)
  next
    show "last (rows modified_obs_diff)
             = (fst (last last_obs_diff), map2 cell_add (snd (last last_obs_diff)) (map snd ?da))"
      by (rule 3)
  next
    fix out
    assume "simulate_scenario L data var_results adjustments steps (Some last_level) = Inr out"
    then show "\<exists>forecast_diff fl.
        forecast L var_results (frame_values modified_obs_diff) steps = Inr forecast_diff \<and>
        forecast_level forecast_diff ?cols last_level = Inr fl"
      by (rule 4)
  next
    fix forecast_diff fl i j
    assume "forecast_level forecast_diff ?cols last_level = Inr fl \<and>
        list_all (\<lambda>r. length r = nd_cols forecast_diff) (nd_rows forecast_diff) \<and>
        i < length (nd_rows forecast_diff) \<and> j < length ?cols"
    then show "snd (rows fl ! i) ! j
         = cell_add (if is_nan (nd_rows forecast_diff ! i ! j) then NaN
                     else Val (\<Sum>t\<le>i. cell_value (nd_rows forecast_diff ! t ! j)))
                    (snd (last_level ! j))"
      by (rule 5)
  qed
qed

text \<open>
  On the example table with its own snapshot and \<open>Temp_degF\<close> adjusted by 2: the net
  adjustment is 2, and the first row of the window is unchanged.
\<close>

theorem simulate_scenario_differenced_witness:
  "\<exists>da. diff_adjustment (set_index_DateTime example_converted) [(''Temp_degF'', 2)] example_snapshot
           = Inr da \<and>
        da ! 0 = (''Temp_degF'', Val 2) \<and>
        butlast [(Timestamp 3600, [Val 18, Val 1]), (Timestamp 7200, [Val 20, Val 2])]
          = butlast (iloc_tail 2 (rows (dropna (diff (set_index_DateTime example_converted)))))"
proof -
  let ?L = "example_lib None 10"
  let ?fr = "set_index_DateTime example_converted"
  let ?adj = "[(''Temp_degF'', 2 :: real)]"
  let ?w = "\<lparr>columns = [''Temp_degF'', ''Wind''],
             rows = [(Timestamp 3600, [Val 18, Val 1]), (Timestamp 7200, [Val 20, Val 2])]\<rparr>"
  have k: "k_ar ?L 2 = 2" by (simp add: example_lib_def)
  have rect: "list_all (\<lambda>r. length (snd r) = length (columns ?fr)) (rows ?fr)"
    by code_simp
  have lab: "map fst example_snapshot = columns ?fr"
    by code_simp
  have dist: "distinct (map fst ?adj)"
    by simp
  have win: "diff_window (k_ar ?L 2) ?fr ?adj example_snapshot = Inr ?w"
    by code_simp
  have p: "0 < length example_snapshot \<and> example_snapshot ! 0 = (''Temp_degF'', Val 68) \<and>
           snd (last (rows ?fr)) ! 0 = Val 68 \<and> (''Temp_degF'', 2) \<in> set ?adj"
    by (intro conjI; code_simp)
  from simulate_scenario_differenced
         [OF example_conversion refl refl refl rect lab dist win, where steps = 2]
  show ?thesis
  proof (elim exE conjE)
    fix da
    assume da: "diff_adjustment ?fr ?adj example_snapshot = Inr da"
      and adj: "\<forall>j v x y delta.
               j < length example_snapshot \<and> example_snapshot ! j = (v, Val x) \<and>
               snd (last (rows ?fr)) ! j = Val y \<and> (v, delta) \<in> set ?adj \<longrightarrow>
                 da ! j = (v, Val ((x + delta) - y)) \<and> (x = y \<longrightarrow> da ! j = (v, Val delta))"
      and bl: "butlast (rows ?w) = butlast (iloc_tail (k_ar ?L 2) (rows (dropna (diff ?fr))))"
    from adj [rule_format, OF p] have "da ! 0 = (''Temp_degF'', Val 2)"
      by simp
    moreover from bl have "butlast [(Timestamp 3600, [Val 18, Val 1]), (Timestamp 7200, [Val 20, Val 2])]
          = butlast (iloc_tail 2 (rows (dropna (diff ?fr))))"
      by (simp only: k frame.simps)
    ultimately show ?thesis using da by (intro exI [of _ da] conjI)
  qed
qed

text \<open>
  The frame that the differenced branch returns is not that level reconstruction.
  \<open>forecast_level\<close> is a frame on the positions 0, 1, ..., and the result is built from
  it with the forecast timestamps as index, which looks the timestamps up among the
  positions: whenever the branch returns, every cell of every row is \<open>NaN\<close>.
\<close>

lemma cumsum_rows_keys: "map fst (cumsum_rows acc rs) = map fst rs"
  by (induction acc rs rule: cumsum_rows.induct) auto

lemma forecast_level_keys:
  assumes "forecast_level forecast_diff cols last_level = Inr fl"
  shows "map_of (rows fl) (Timestamp t) = None"
proof -
  let ?n = "length (nd_rows forecast_diff)"
  let ?rs = "zip (map RangeIndex [0..<?n]) (nd_rows forecast_diff)"
  from assms have r: "rows fl = map (\<lambda>(k, cs). (k, map2 cell_add cs (map snd last_level)))
                        (cumsum_rows (replicate (length cols) 0) ?rs)"
    by (auto simp: forecast_level_def DataFrame_def add_values_def cumsum_def
             split: if_splits sum.splits)
  have "map fst (rows fl) = map fst (cumsum_rows (replicate (length cols) 0) ?rs)"
    unfolding r by (simp add: comp_def case_prod_beta)
  then have "map fst (rows fl) = map RangeIndex [0..<?n]"
    by (simp add: cumsum_rows_keys)
  then have "Timestamp t \<notin> fst ` set (rows fl)"
    by (metis (no_types, lifting) imageE label.distinct(1) list.set_map)
  then show ?thesis by (simp add: map_of_eq_None_iff)
qed

lemma differenced_branch_all_nan:
  assumes "simulate_scenario L data var_results adjustments steps (Some last_level) = Inr out"
  shows "list_all (\<lambda>r. snd r = replicate (length (columns out)) NaN) (rows out)"
proof (cases "convert_temperature_to_fahrenheit data")
  case (Inl e)
  with assms show ?thesis by (simp add: simulate_scenario_def)
next
  case (Inr data_converted)
  from assms obtain forecast_diff fl and r :: "int \<times> cell list" where
    fl: "forecast_level forecast_diff (columns (set_index_DateTime data_converted)) last_level = Inr fl"
    and out: "out = reindex fl (forecast_index (fst r) steps)"
    unfolding simulate_scenario_diff [OF Inr] by (auto split: sum.splits)
  have "map_of (rows fl) l = None" if "l \<in> set (forecast_index (fst r) steps)" for l
    using that forecast_level_keys [OF fl] by (auto simp: forecast_index_def)
  then show ?thesis
    unfolding out by (auto simp: reindex_def list_all_iff)
qed

text \<open>
  Claim C3 fails on the code. On the example table with the snapshot the fitter returns
  for it and \<open>Temp_degF\<close> adjusted by 2, the window of the two differenced rows has its
  last row raised by 2, the forecast differences are (20, 2) twice, and their cumulative
  sums added to the snapshot (68, 6) are (88, 8) and (108, 10); the forecast table
  returned holds \<open>NaN\<close> in every cell instead.
\<close>

theorem simulate_scenario_differenced_returns_nan:
  "diff_window 2 (set_index_DateTime example_converted) [(''Temp_degF'', 2)] example_snapshot
     = Inr \<lparr>columns = [''Temp_degF'', ''Wind''],
            rows = [(Timestamp 3600, [Val 18, Val 1]), (Timestamp 7200, [Val 20, Val 2])]\<rparr> \<and>
   forecast (example_lib None 10) 2
       \<lparr>nd_cols = 2, nd_rows = [[Val 18, Val 1], [Val 20, Val 2]]\<rparr> 2
     = Inr \<lparr>nd_cols = 2, nd_rows = [[Val 20, Val 2], [Val 20, Val 2]]\<rparr> \<and>
   forecast_level \<lparr>nd_cols = 2, nd_rows = [[Val 20, Val 2], [Val 20, Val 2]]\<rparr>
       [''Temp_degF'', ''Wind''] example_snapshot
     = Inr \<lparr>columns = [''Temp_degF'', ''Wind''],
            rows = [(RangeIndex 0, [Val 88, Val 8]), (RangeIndex 1, [Val 108, Val 10])]\<rparr> \<and>
   simulate_scenario (example_lib None 10) example_table 2 [(''Temp_degF'', 2)] 2
       (Some example_snapshot)
     = Inr \<lparr>columns = [''Temp_degF'', ''Wind''],
            rows = [(Timestamp 10800, [NaN, NaN]), (Timestamp 14400, [NaN, NaN])]\<rparr>"
  by code_simp

end
